theory Spec2Isabelle
  imports Complex_Main "HOL-Library.AList"
begin

section \<open>JavaScript values used by the DataLoader of the article\<close>

text \<open>
  The class \<^verbatim>\<open>DataLoader\<close> of the article
  \<^verbatim>\<open>use-dataloaders-to-batch-and-queue-database-requests-graphql.mdx\<close> is embedded
  together with the parts of the language it relies on: truthiness, property names and
  their enumeration order, strict equality with a number, \<^verbatim>\<open>Array.prototype.find\<close> and
  the settlement of promises.

  A number is \<open>NaN\<close>, an infinity or a finite value; \<open>+0\<close> and \<open>-0\<close>, which \<^verbatim>\<open>===\<close>
  identifies, are one value. No number is computed here: the numbers are those the
  items and the keys carry. Strings are sequences of the code units 0..255.
\<close>

datatype jsnum = NaN | PosInf | NegInf | Fin rat

datatype jsval =
    Undefined
  | Null
  | Bool bool
  | Num jsnum
  | Str string
  | Arr "jsval list"
  | Obj "(string \<times> jsval) list"
  | Builtin string

text \<open>
  \<open>Builtin n\<close> is the member \<open>n\<close> that every ordinary object inherits from
  \<^verbatim>\<open>Object.prototype\<close> (a function, or the prototype itself for \<^verbatim>\<open>__proto__\<close>).
\<close>

datatype exn = TypeError | Error string | Thrown jsval

text \<open>How a promise eventually settles; \<open>Pending\<close> is a promise that never settles.\<close>

datatype outcome = Pending | Fulfilled jsval | Rejected exn

text \<open>What a variable or property holds: a plain value or a promise.\<close>

datatype ref = Val jsval | Promise outcome

fun ToBoolean :: "jsval \<Rightarrow> bool" where
  "ToBoolean Undefined = False"
| "ToBoolean Null = False"
| "ToBoolean (Bool b) = b"
| "ToBoolean (Num n) = (n \<noteq> NaN \<and> n \<noteq> Fin 0)"
| "ToBoolean (Str s) = (s \<noteq> [])"
| "ToBoolean (Arr xs) = True"
| "ToBoolean (Obj ps) = True"
| "ToBoolean (Builtin n) = True"

fun truthy :: "ref \<Rightarrow> bool" where
  "truthy (Val v) = ToBoolean v"
| "truthy (Promise p) = True"

subsection \<open>Keys\<close>

text \<open>
  The argument of \<^verbatim>\<open>load\<close> is any value. \<^verbatim>\<open>load\<close> uses it in two places only: as a
  property name in \<^verbatim>\<open>this.promises[key]\<close>, which is the string \<^verbatim>\<open>String(key)\<close>, and in
  \<^verbatim>\<open>Number(key)\<close>. A key is modelled by what these two conversions give for it, and the
  conversions themselves, with the rounding of \<^verbatim>\<open>Number\<close> to binary64, are not
  computed: \<^verbatim>\<open>load(1)\<close> and \<^verbatim>\<open>load('1')\<close> have the name \<open>''1''\<close> and the number
  \<open>Fin 1\<close>, \<^verbatim>\<open>load('abc')\<close> has the name \<open>''abc''\<close> and the number \<open>NaN\<close>,
  \<^verbatim>\<open>load(null)\<close> has the name \<open>''null''\<close> and the number \<open>Fin 0\<close>, and
  \<^verbatim>\<open>load('null')\<close> has the name \<open>''null''\<close> and the number \<open>NaN\<close>. An object with
  methods \<^verbatim>\<open>toString\<close> and \<^verbatim>\<open>valueOf\<close> of its own has whatever name and number these
  return, so the two are independent. Values whose conversions throw (a symbol, an
  object with a throwing \<^verbatim>\<open>toString\<close>) are not keys here. \<open>ToPropertyKey key\<close> is the
  name and \<open>Number key\<close> the number.
\<close>

record key =
  ToPropertyKey :: string
  Number :: jsnum

section \<open>Objects: property lookup and \<^verbatim>\<open>Object.keys\<close>\<close>

text \<open>
  \<^verbatim>\<open>this.promises = {}\<close> is an ordinary object. Its own properties are kept in creation
  order; an assignment to an existing property keeps its place (\<open>AList.update\<close>).
\<close>

definition Object_prototype_names :: "string list" where
  "Object_prototype_names =
    [''constructor'', ''hasOwnProperty'', ''isPrototypeOf'', ''propertyIsEnumerable'',
     ''toLocaleString'', ''toString'', ''valueOf'', ''__proto__'',
     ''__defineGetter__'', ''__defineSetter__'', ''__lookupGetter__'', ''__lookupSetter__'']"

definition inherited :: "string \<Rightarrow> bool" where
  "inherited k \<longleftrightarrow> k \<in> set Object_prototype_names"

text \<open>\<^verbatim>\<open>this.promises[key]\<close>: the own property, else what \<^verbatim>\<open>Object.prototype\<close> gives.\<close>

definition get_prop :: "(string \<times> ref) list \<Rightarrow> string \<Rightarrow> ref" where
  "get_prop ps k =
    (case map_of ps k of
       Some r \<Rightarrow> r
     | None \<Rightarrow> if inherited k then Val (Builtin k) else Val Undefined)"

text \<open>The value of a non-empty string of decimal digits.\<close>

definition digit_table :: "(char \<times> nat) list" where
  "digit_table =
    [(CHR ''0'', 0), (CHR ''1'', 1), (CHR ''2'', 2), (CHR ''3'', 3), (CHR ''4'', 4),
     (CHR ''5'', 5), (CHR ''6'', 6), (CHR ''7'', 7), (CHR ''8'', 8), (CHR ''9'', 9)]"

fun digits_acc :: "nat \<Rightarrow> string \<Rightarrow> nat option" where
  "digits_acc acc [] = Some acc"
| "digits_acc acc (c # cs) =
    (case map_of digit_table c of
       None \<Rightarrow> None
     | Some d \<Rightarrow> digits_acc (acc * 10 + d) cs)"

definition digits :: "string \<Rightarrow> nat option" where
  "digits s = (if s = [] then None else digits_acc 0 s)"

text \<open>
  An array index is the canonical decimal numeral of an integer below \<open>2^32 - 1\<close>.
  The own property names of an object, given in creation order, are enumerated with the
  array indices first, in ascending numeric order, then the other names in creation
  order; \<^verbatim>\<open>Object.keys\<close> lists them so.
\<close>

definition is_array_index :: "string \<Rightarrow> bool" where
  "is_array_index s =
    (case digits s of
       None \<Rightarrow> False
     | Some n \<Rightarrow> (s = ''0'' \<or> hd s \<noteq> CHR ''0'') \<and> n < 4294967295)"

definition index_of :: "string \<Rightarrow> nat" where
  "index_of s = (case digits s of None \<Rightarrow> 0 | Some n \<Rightarrow> n)"

definition own_property_keys :: "string list \<Rightarrow> string list" where
  "own_property_keys ks =
    sort_key index_of (filter is_array_index ks) @ filter (\<lambda>k. \<not> is_array_index k) ks"

definition Object_keys :: "(string \<times> 'a) list \<Rightarrow> string list" where
  "Object_keys ps = own_property_keys (map fst ps)"

section \<open>Selecting the item of a key\<close>

text \<open>\<^verbatim>\<open>item.id\<close>: a \<^verbatim>\<open>TypeError\<close> on \<^verbatim>\<open>undefined\<close> and \<^verbatim>\<open>null\<close>.\<close>

definition get_id :: "jsval \<Rightarrow> exn + jsval" where
  "get_id item =
    (case item of
       Undefined \<Rightarrow> Inl TypeError
     | Null \<Rightarrow> Inl TypeError
     | Obj ps \<Rightarrow> Inr (case map_of ps ''id'' of None \<Rightarrow> Undefined | Some v \<Rightarrow> v)
     | _ \<Rightarrow> Inr Undefined)"

text \<open>\<^verbatim>\<open>v === n\<close> for a number \<open>n\<close>: no conversion, and \<open>NaN\<close> equals nothing.\<close>

fun strict_eq_num :: "jsval \<Rightarrow> jsnum \<Rightarrow> bool" where
  "strict_eq_num (Num m) n = (m \<noteq> NaN \<and> n \<noteq> NaN \<and> m = n)"
| "strict_eq_num v n = False"

text \<open>\<^verbatim>\<open>items.find((item) => item.id === n)\<close> on the elements of an array.\<close>

fun find_item :: "jsval list \<Rightarrow> jsnum \<Rightarrow> exn + jsval" where
  "find_item [] n = Inr Undefined"
| "find_item (item # items) n =
    (case get_id item of
       Inl e \<Rightarrow> Inl e
     | Inr v \<Rightarrow> if strict_eq_num v n then Inr item else find_item items n)"

text \<open>
  The callback \<^verbatim>\<open>(items) => items.find((item) => item.id === Number(key))\<close>, with
  \<^verbatim>\<open>Number\<close> of the argument of \<^verbatim>\<open>load\<close>; a value that is not an array has no
  \<^verbatim>\<open>find\<close>.
\<close>

definition select_item :: "key \<Rightarrow> jsval \<Rightarrow> exn + jsval" where
  "select_item key items =
    (case items of
       Arr xs \<Rightarrow> find_item xs (Number key)
     | _ \<Rightarrow> Inl TypeError)"

text \<open>How \<^verbatim>\<open>p.then(callback)\<close> settles, from how \<open>p\<close> settles.\<close>

fun then_select :: "outcome \<Rightarrow> key \<Rightarrow> outcome" where
  "then_select Pending key = Pending"
| "then_select (Rejected e) key = Rejected e"
| "then_select (Fulfilled items) key =
    (case select_item key items of
       Inl e \<Rightarrow> Rejected e
     | Inr item \<Rightarrow> Fulfilled item)"

text \<open>\<^verbatim>\<open>this.activeQuery.then(...)\<close>: only a promise has \<^verbatim>\<open>then\<close>.\<close>

definition activeQuery_then :: "ref \<Rightarrow> key \<Rightarrow> exn + outcome" where
  "activeQuery_then q key =
    (case q of
       Promise p \<Rightarrow> Inr (then_select p key)
     | Val v \<Rightarrow> Inl TypeError)"

text \<open>What an \<^verbatim>\<open>async\<close> function that returns \<open>r\<close> resolves to.\<close>

definition resolve :: "ref \<Rightarrow> outcome" where
  "resolve r = (case r of Promise p \<Rightarrow> p | Val v \<Rightarrow> Fulfilled v)"

section \<open>The class \<^verbatim>\<open>DataLoader\<close>\<close>

text \<open>
  A batch function takes the property names and throws (\<open>Inl\<close>) or returns a value or
  a promise. The argument of the constructor is any value, a function or not.
\<close>

datatype fnval = NotCallable jsval | Callable "string list \<Rightarrow> exn + ref"

record loader =
  batchFn :: "fnval option"
  promises :: "(string \<times> ref) list"
  activeQuery :: ref

text \<open>
  \<open>batchFn\<close> is the own property of the instance (\<open>None\<close>: no own property). The
  event loop is kept beside the object: the calls of \<^verbatim>\<open>load\<close> suspended at
  \<^verbatim>\<open>await this.schedulingFn()\<close> with their keys, in call order; for every call that has
  returned, its key and how the promise it returned settles; and the argument of every
  invocation of the batch function, in order.
\<close>

record run = loader +
  suspended :: "key list"
  settled :: "(key \<times> outcome) list"
  fetches :: "string list list"

text \<open>\<^verbatim>\<open>batchFn() { throw new Error('Not implemented') }\<close> of the prototype.\<close>

definition prototype_batchFn :: "string list \<Rightarrow> exn + ref" where
  "prototype_batchFn keys = Inl (Error ''Not implemented'')"

text \<open>\<^verbatim>\<open>this.batchFn\<close>: the own property shadows the method of the prototype.\<close>

definition get_batchFn :: "run \<Rightarrow> fnval" where
  "get_batchFn this =
    (case batchFn this of
       Some v \<Rightarrow> v
     | None \<Rightarrow> Callable prototype_batchFn)"

text \<open>
  \<^verbatim>\<open>new DataLoader(batchFn)\<close>. The constructor assigns \<^verbatim>\<open>this.batchFn = batchFn\<close>
  whatever the argument is. The scheduling function (the default one resolves from a
  timer, \<^verbatim>\<open>options.schedulingFn\<close> replaces it) decides only when a suspended call
  goes on: that is the event \<open>Resume\<close> below, in any order.
\<close>

definition DataLoader :: "fnval \<Rightarrow> run" where
  "DataLoader bf =
    \<lparr>batchFn = Some bf, promises = [], activeQuery = Val Null,
     suspended = [], settled = [], fetches = []\<rparr>"

text \<open>\<^verbatim>\<open>load(key)\<close> up to \<^verbatim>\<open>await this.schedulingFn()\<close>.\<close>

definition load :: "run \<Rightarrow> key \<Rightarrow> run" where
  "load this key =
    (if truthy (get_prop (promises this) (ToPropertyKey key))
     then this\<lparr>settled :=
            settled this @ [(key, resolve (get_prop (promises this) (ToPropertyKey key)))]\<rparr>
     else this\<lparr>promises := AList.update (ToPropertyKey key) (Val Null) (promises this),
               suspended := suspended this @ [key]\<rparr>)"

text \<open>
  \<^verbatim>\<open>if (!this.activeQuery) { ... this.activeQuery = this.batchFn(ids) }\<close>, with the
  exception thrown, if any. An invocation of the batch function is logged in
  \<open>fetches\<close> also when it throws; the \<^verbatim>\<open>console.log\<close> is left out.
\<close>

definition dispatch :: "run \<Rightarrow> run \<times> exn option" where
  "dispatch this =
    (if truthy (activeQuery this) then (this, None)
     else
       let ids = Object_keys (promises this)
       in (case get_batchFn this of
             NotCallable v \<Rightarrow> (this, Some TypeError)
           | Callable f \<Rightarrow>
               (case f ids of
                  Inl e \<Rightarrow> (this\<lparr>fetches := fetches this @ [ids]\<rparr>, Some e)
                | Inr r \<Rightarrow>
                    (this\<lparr>activeQuery := r, fetches := fetches this @ [ids]\<rparr>, None))))"

text \<open>\<^verbatim>\<open>load(key)\<close> after the \<^verbatim>\<open>await\<close>.\<close>

definition load_resumed :: "run \<Rightarrow> key \<Rightarrow> run" where
  "load_resumed this key =
    (case dispatch this of
       (this1, Some e) \<Rightarrow> this1\<lparr>settled := settled this1 @ [(key, Rejected e)]\<rparr>
     | (this1, None) \<Rightarrow>
         (case activeQuery_then (activeQuery this1) key of
            Inl e \<Rightarrow> this1\<lparr>settled := settled this1 @ [(key, Rejected e)]\<rparr>
          | Inr p \<Rightarrow>
              this1\<lparr>promises := AList.update (ToPropertyKey key) (Promise p) (promises this1),
                    settled := settled this1 @ [(key, p)]\<rparr>))"

text \<open>
  An event is a call \<^verbatim>\<open>load(key)\<close>, or the scheduler letting the \<open>i\<close>-th suspended call
  go on. The default scheduler and every scheduler with one fixed delay resume the
  oldest call first, \<open>Resume 0\<close>.
\<close>

datatype event = Load key | Resume nat

fun step :: "run \<Rightarrow> event \<Rightarrow> run" where
  "step this (Load key) = load this key"
| "step this (Resume i) =
    (if i < length (suspended this)
     then load_resumed
            (this\<lparr>suspended := take i (suspended this) @ drop (Suc i) (suspended this)\<rparr>)
            (suspended this ! i)
     else this)"

definition exec :: "run \<Rightarrow> event list \<Rightarrow> run" where
  "exec = foldl step"

section \<open>Notions used to state the properties\<close>

text \<open>A batch function that, whatever the keys, returns a promise.\<close>

definition returns_promise :: "(string list \<Rightarrow> exn + ref) \<Rightarrow> bool" where
  "returns_promise f \<longleftrightarrow> (\<forall>ids. \<exists>p. f ids = Inr (Promise p))"

text \<open>The keys requested in a run, in order.\<close>

fun requested :: "event list \<Rightarrow> key list" where
  "requested [] = []"
| "requested (Load k # evs) = k # requested evs"
| "requested (Resume i # evs) = requested evs"




text \<open>The distinct names of a sequence of requests, in order of first request.\<close>

fun distinct_keys :: "string list \<Rightarrow> string list" where
  "distinct_keys [] = []"
| "distinct_keys (k # ks) = k # filter (\<lambda>k'. k' \<noteq> k) (distinct_keys ks)"

text \<open>An element of a result on which \<^verbatim>\<open>item.id\<close> throws.\<close>

definition hole :: "jsval \<Rightarrow> bool" where
  "hole item \<longleftrightarrow> item = Undefined \<or> item = Null"

text \<open>An item whose \<^verbatim>\<open>id\<close> is the number \<open>n\<close>.\<close>

definition has_id :: "jsnum \<Rightarrow> jsval \<Rightarrow> bool" where
  "has_id n item = (case get_id item of Inl e \<Rightarrow> False | Inr v \<Rightarrow> strict_eq_num v n)"

text \<open>The first item of the result whose \<^verbatim>\<open>id\<close> is \<^verbatim>\<open>Number(key)\<close>, else \<^verbatim>\<open>undefined\<close>.\<close>

definition item_of :: "key \<Rightarrow> jsval list \<Rightarrow> jsval" where
  "item_of key items =
    (case find (has_id (Number key)) items of
       None \<Rightarrow> Undefined
     | Some item \<Rightarrow> item)"





definition answered :: "outcome \<Rightarrow> key set \<Rightarrow> key \<Rightarrow> outcome \<Rightarrow> bool" where
  "answered p K k out \<longleftrightarrow>
     (if inherited (ToPropertyKey k) then out = Fulfilled (Builtin (ToPropertyKey k))
      else \<exists>k' \<in> K. ToPropertyKey k' = ToPropertyKey k \<and> out = then_select p k')"




subsection \<open>The users of the article\<close>

text \<open>
  The rows with the ids 1, 2, 4, 5, 6, 10 and 18 of the article, each under the numeral
  of its id, and the batch function
  \<^verbatim>\<open>keys => sql.select('*').from('users').whereIn('id', keys)\<close> over a table held in
  memory: a promise of the rows whose id is one of the keys.
\<close>

definition user :: "nat \<Rightarrow> jsval" where
  "user n = Obj [(''id'', Num (Fin (of_nat n))), (''name'', Str ''user'')]"

definition users :: "(string \<times> jsval) list" where
  "users =
    [(''1'', user 1), (''2'', user 2), (''4'', user 4), (''5'', user 5), (''6'', user 6),
     (''10'', user 10), (''18'', user 18)]"

definition whereIn :: "(string \<times> jsval) list \<Rightarrow> string list \<Rightarrow> exn + ref" where
  "whereIn table keys =
    Inr (Promise (Fulfilled (Arr (map snd (filter (\<lambda>(i, row). i \<in> set keys) table)))))"

text \<open>The row id \<open>n\<close> as a key, requested as a number or as its numeral \<open>s\<close>.\<close>

definition id_key :: "nat \<Rightarrow> string \<Rightarrow> key" where
  "id_key n s = \<lparr>ToPropertyKey = s, Number = Fin (of_nat n)\<rparr>"

text \<open>The author ids of the posts of the article, in the order of the posts.\<close>

definition author_ids :: "key list" where
  "author_ids =
    [id_key 1 ''1'', id_key 1 ''1'', id_key 2 ''2'', id_key 2 ''2'', id_key 4 ''4'',
     id_key 4 ''4'', id_key 5 ''5'', id_key 6 ''6'', id_key 10 ''10'', id_key 18 ''18'']"

text \<open>
  The keys \<^verbatim>\<open>'abc'\<close>, \<^verbatim>\<open>'toString'\<close> and \<^verbatim>\<open>'null'\<close>, strings that \<^verbatim>\<open>Number\<close> takes to
  \<open>NaN\<close>, and the key \<^verbatim>\<open>null\<close>, which \<^verbatim>\<open>Number\<close> takes to 0.
\<close>

definition key_abc :: key where
  "key_abc = \<lparr>ToPropertyKey = ''abc'', Number = NaN\<rparr>"

definition key_toString :: key where
  "key_toString = \<lparr>ToPropertyKey = ''toString'', Number = NaN\<rparr>"

definition key_null_string :: key where
  "key_null_string = \<lparr>ToPropertyKey = ''null'', Number = NaN\<rparr>"

definition key_null :: key where
  "key_null = \<lparr>ToPropertyKey = ''null'', Number = Fin 0\<rparr>"

text \<open>A batch function that answers every request with the same rows.\<close>

definition resolving :: "jsval list \<Rightarrow> string list \<Rightarrow> exn + ref" where
  "resolving rows keys = Inr (Promise (Fulfilled (Arr rows)))"

text \<open>A batch function whose promise is rejected.\<close>

definition failing :: "exn \<Rightarrow> string list \<Rightarrow> exn + ref" where
  "failing e keys = Inr (Promise (Rejected e))"

text \<open>A batch function that throws, and one that throws unless the key 2 is asked for.\<close>

definition throwing :: "exn \<Rightarrow> string list \<Rightarrow> exn + ref" where
  "throwing e keys = Inl e"

definition throwing_without_2 :: "exn \<Rightarrow> string list \<Rightarrow> exn + ref" where
  "throwing_without_2 e keys = (if ''2'' \<in> set keys then whereIn users keys else Inl e)"

section \<open>The MDX component mapping\<close>

text \<open>
  \<^verbatim>\<open>src/components/mdx/index.tsx\<close> maps element names to components. An entry
  \<^verbatim>\<open>(props) => <tag className="c" {...props} />\<close> renders the element \<open>tag\<close> whose
  attributes are \<^verbatim>\<open>className\<close> followed by the spread properties, a later property
  replacing an earlier one of the same name. The entries that render imported
  components or nested markup (\<^verbatim>\<open>DefaultLayout\<close>, \<^verbatim>\<open>TestTextInput\<close>,
  \<^verbatim>\<open>TestTextInputAsync\<close>, \<^verbatim>\<open>link-icon\<close>, \<^verbatim>\<open>pre\<close>) are left out.
\<close>

record element =
  tag :: string
  attrs :: "(string \<times> jsval) list"

definition spread :: "(string \<times> jsval) list \<Rightarrow> (string \<times> jsval) list \<Rightarrow> (string \<times> jsval) list" where
  "spread base props = foldl (\<lambda>acc (k, v). AList.update k v acc) base props"

definition intrinsic :: "string \<Rightarrow> string option \<Rightarrow> (string \<times> jsval) list \<Rightarrow> element" where
  "intrinsic t cls props =
    \<lparr>tag = t,
     attrs = spread (case cls of None \<Rightarrow> [] | Some c \<Rightarrow> [(''className'', Str c)]) props\<rparr>"

definition components :: "(string \<times> ((string \<times> jsval) list \<Rightarrow> element)) list" where
  "components =
    [(''h1'', intrinsic ''h1'' (Some ''mt-10 mb-4 leading-tight text-gray-800 text-28 font-300'')),
     (''h2'', intrinsic ''h2'' (Some ''mt-10 mb-4 text-gray-500 text-24 font-300'')),
     (''h3'', intrinsic ''h3'' (Some ''mt-10 mb-4 text-gray-500 font-500'')),
     (''h4'', intrinsic ''s'' None),
     (''h5'', intrinsic ''s'' None),
     (''h6'', intrinsic ''s'' None),
     (''a'', intrinsic ''a'' (Some ''text-blue-700 underline'')),
     (''p'', intrinsic ''p'' (Some ''mb-5 '')),
     (''li'', intrinsic ''li'' (Some ''text-gray-600 list-disc'')),
     (''ul'', intrinsic ''ul'' (Some ''mb-4 ml-5'')),
     (''ins'', intrinsic ''ins'' (Some ''block px-4 -mx-4 bg-green-800'')),
     (''del'', intrinsic ''ins'' (Some ''block px-4 -mx-4 bg-blue-800'')),
     (''code'', intrinsic ''code'' (Some ''bg-blue-600 text-16'')),
     (''blockquote'', intrinsic ''blockquote'' (Some ''italic''))]"

text \<open>Rendering the markup element \<open>name\<close>; \<open>None\<close> where the mapping has no entry.\<close>

definition render :: "string \<Rightarrow> (string \<times> jsval) list \<Rightarrow> element option" where
  "render name props = map_option (\<lambda>c. c props) (map_of components name)"

section \<open>Evaluation and basic facts\<close>

lemmas loader_eval =
  exec_def DataLoader_def load_def load_resumed_def dispatch_def get_batchFn_def
  get_prop_def inherited_def Object_prototype_names_def Object_keys_def
  own_property_keys_def is_array_index_def index_of_def digits_def digit_table_def
  activeQuery_then_def resolve_def select_item_def get_id_def has_id_def Let_def

lemmas users_eval =
  users_def user_def whereIn_def failing_def resolving_def throwing_def
  throwing_without_2_def item_of_def id_key_def key_abc_def key_toString_def
  key_null_string_def key_null_def author_ids_def

lemma returns_promise_whereIn: "returns_promise (whereIn table)"
  by (simp add: returns_promise_def whereIn_def)

lemma returns_promise_resolving: "returns_promise (resolving rows)"
  by (simp add: returns_promise_def resolving_def)

lemma returns_promise_failing: "returns_promise (failing e)"
  by (simp add: returns_promise_def failing_def)



lemma set_Object_keys: "set (Object_keys ps) = fst ` set ps"
  by (auto simp: Object_keys_def own_property_keys_def)



lemma dispatch_Promise:
  "activeQuery s = Promise p \<Longrightarrow> dispatch s = (s, None)"
  by (simp add: dispatch_def)

lemma dispatch_fresh:
  assumes "batchFn s = Some (Callable f)" "\<not> truthy (activeQuery s)"
    "f (Object_keys (promises s)) = Inr r"
  shows "dispatch s =
    (s\<lparr>activeQuery := r, fetches := fetches s @ [Object_keys (promises s)]\<rparr>, None)"
  using assms by (simp add: dispatch_def get_batchFn_def Let_def)

lemma dispatch_throws:
  assumes "batchFn s = Some (Callable f)" "\<not> truthy (activeQuery s)"
    "f (Object_keys (promises s)) = Inl e"
  shows "dispatch s = (s\<lparr>fetches := fetches s @ [Object_keys (promises s)]\<rparr>, Some e)"
  using assms by (simp add: dispatch_def get_batchFn_def Let_def)


lemma update_absent:
  "k \<notin> fst ` set ps \<Longrightarrow> AList.update k v ps = ps @ [(k, v)]"
  by (induction ps) auto

lemma exec_Nil: "exec s [] = s"
  by (simp add: exec_def)

lemma exec_Cons: "exec s (e # evs) = exec (step s e) evs"
  by (simp add: exec_def)

lemma exec_append: "exec s (evs @ evs') = exec (exec s evs) evs'"
  by (simp add: exec_def)

lemma requested_append: "requested (evs @ evs') = requested evs @ requested evs'"
  by (induction evs rule: requested.induct) simp_all

lemma then_select_cong:
  "Number k = Number k' \<Longrightarrow> then_select p k = then_select p k'"
  by (cases p) (simp_all add: select_item_def split: jsval.splits)

section \<open>The invariant holds in every run\<close>




lemma answered_builtin:
  "inherited (ToPropertyKey k) \<Longrightarrow> answered p K k (Fulfilled (Builtin (ToPropertyKey k)))"
  unfolding answered_def by simp




text \<open>A call that registers its key and waits for the scheduler.\<close>

lemma load_suspends:
  "\<not> truthy (get_prop (promises s) (ToPropertyKey key)) \<Longrightarrow>
   load s key =
     s\<lparr>promises := AList.update (ToPropertyKey key) (Val Null) (promises s),
       suspended := suspended s @ [key]\<rparr>"
  by (simp add: load_def)















section \<open>Once dispatched, the batch stays\<close>

lemma step_dispatched:
  assumes "activeQuery s = Promise p"
  shows "activeQuery (step s e) = Promise p \<and> fetches (step s e) = fetches s"
proof (cases e)
  case (Load key)
  then show ?thesis using assms by (simp add: load_def)
next
  case (Resume i)
  then show ?thesis
    using assms
    by (simp add: load_resumed_def dispatch_Promise activeQuery_then_def)
qed

lemma exec_dispatched:
  assumes "activeQuery s = Promise p"
  shows "activeQuery (exec s evs) = Promise p \<and> fetches (exec s evs) = fetches s"
  using assms
proof (induction evs arbitrary: s)
  case Nil
  then show ?case by (simp add: exec_Nil)
next
  case (Cons e evs)
  from step_dispatched[OF Cons.prems, of e]
  have "activeQuery (step s e) = Promise p" and f: "fetches (step s e) = fetches s"
    by simp_all
  from Cons.IH[OF this(1)] f show ?case by (simp add: exec_Cons)
qed

lemma join_dispatched:
  assumes "activeQuery s = Promise p" "\<not> truthy (get_prop (promises s) (ToPropertyKey key))"
  shows "exec s [Load key, Resume (length (suspended s))] =
    s\<lparr>promises := AList.update (ToPropertyKey key) (Promise (then_select p key)) (promises s),
      settled := settled s @ [(key, then_select p key)]\<rparr>"
  using assms
  by (simp add: exec_def load_def load_resumed_def dispatch_Promise activeQuery_then_def)

section \<open>Selection from a result without holes\<close>

lemma get_id_defined: "\<not> hole item \<Longrightarrow> \<exists>v. get_id item = Inr v"
  by (cases item) (simp_all add: get_id_def hole_def)

lemma find_item_find:
  assumes "\<forall>item \<in> set items. \<not> hole item"
  shows "find_item items n =
    Inr (case find (has_id n) items of None \<Rightarrow> Undefined | Some item \<Rightarrow> item)"
  using assms
proof (induction items)
  case Nil
  then show ?case by simp
next
  case (Cons item items)
  then obtain v where "get_id item = Inr v"
    using get_id_defined[of item] by auto
  with Cons show ?case by (simp add: has_id_def)
qed

lemma then_select_item_of:
  assumes "\<forall>item \<in> set items. \<not> hole item"
  shows "then_select (Fulfilled (Arr items)) key = Fulfilled (item_of key items)"
  using find_item_find[OF assms, of "Number key"]
  by (simp add: select_item_def item_of_def)

lemma has_id_Num: "has_id n item \<Longrightarrow> get_id item = Inr (Num n) \<and> n \<noteq> NaN"
proof -
  assume h: "has_id n item"
  then obtain v where v: "get_id item = Inr v" "strict_eq_num v n"
    by (auto simp: has_id_def split: sum.splits)
  then show ?thesis by (cases v) auto
qed

lemma item_of_missing:
  "\<forall>item \<in> set items. \<not> has_id (Number key) item \<Longrightarrow> item_of key items = Undefined"
  by (simp add: item_of_def find_None_iff[THEN iffD2])

section \<open>Calls made within one scheduling window\<close>









section \<open>The claims\<close>




text \<open>
  C2, as the code has it. The loader never clears \<^verbatim>\<open>activeQuery\<close>: once a batch has
  been dispatched, whatever happens afterwards leaves that promise in place and invokes
  the batch function no more; a key requested afterwards is registered and resumed, and
  settles from the promise of the old batch.
\<close>

theorem C2_active_batch_is_kept:
  assumes "activeQuery s = Promise p"
  shows "activeQuery (exec s evs) = Promise p \<and>
         fetches (exec s evs) = fetches s \<and>
         (\<not> truthy (get_prop (promises s) (ToPropertyKey key)) \<longrightarrow>
            settled (exec s [Load key, Resume (length (suspended s))]) =
              settled s @ [(key, then_select p key)])"
  using exec_dispatched[OF assms, of evs] join_dispatched[OF assms, of key]
  by simp

theorem C2_witness:
  "activeQuery (exec (DataLoader (Callable (whereIn users))) [Load (id_key 1 ''1''), Resume 0]) =
     Promise (Fulfilled (Arr [user 1])) \<and>
   activeQuery (exec
     (exec (DataLoader (Callable (whereIn users))) [Load (id_key 1 ''1''), Resume 0])
     [Load (id_key 2 ''2''), Resume 0]) = Promise (Fulfilled (Arr [user 1])) \<and>
   fetches (exec
     (exec (DataLoader (Callable (whereIn users))) [Load (id_key 1 ''1''), Resume 0])
     [Load (id_key 2 ''2''), Resume 0]) = [[''1'']] \<and>
   settled (exec
     (exec (DataLoader (Callable (whereIn users))) [Load (id_key 1 ''1''), Resume 0])
     [Load (id_key 2 ''2''), Resume 0]) =
     [(id_key 1 ''1'', Fulfilled (user 1)), (id_key 2 ''2'', Fulfilled Undefined)]"
proof -
  let ?s = "exec (DataLoader (Callable (whereIn users))) [Load (id_key 1 ''1''), Resume 0]"
  have a: "activeQuery ?s = Promise (Fulfilled (Arr [user 1]))"
    by (simp add: loader_eval users_eval)
  have b: "\<not> truthy (get_prop (promises ?s) (ToPropertyKey (id_key 2 ''2'')))"
    "suspended ?s = []" "fetches ?s = [[''1'']]"
    "settled ?s = [(id_key 1 ''1'', Fulfilled (user 1))]"
    by (simp_all add: loader_eval users_eval)
  have c: "then_select (Fulfilled (Arr [user 1])) (id_key 2 ''2'') = Fulfilled Undefined"
    by (simp add: loader_eval users_eval)
  from C2_active_batch_is_kept[OF a, of "[Load (id_key 2 ''2''), Resume 0]" "id_key 2 ''2''"]
    a b c
  show ?thesis by simp
qed

text \<open>
  C2 as stated fails: two keys requested in two separate ticks cause one invocation of
  the batch function, with the first key alone; the second key finds nothing.
\<close>

theorem C2_counterexample:
  "length (fetches (exec (DataLoader (Callable (whereIn users)))
     [Load (id_key 1 ''1''), Resume 0, Load (id_key 2 ''2''), Resume 0])) \<noteq> 2 \<and>
   fetches (exec (DataLoader (Callable (whereIn users)))
     [Load (id_key 1 ''1''), Resume 0, Load (id_key 2 ''2''), Resume 0]) = [[''1'']] \<and>
   settled (exec (DataLoader (Callable (whereIn users)))
     [Load (id_key 1 ''1''), Resume 0, Load (id_key 2 ''2''), Resume 0]) =
     [(id_key 1 ''1'', Fulfilled (user 1)), (id_key 2 ''2'', Fulfilled Undefined)]"
  by (simp add: loader_eval users_eval)

text \<open>Requests made before any call is resumed only register placeholders.\<close>

lemma load_placeholder:
  assumes "\<forall>(nm, r) \<in> set (promises s). r = Val Null" "\<not> inherited (ToPropertyKey key)"
  shows "load s key =
    s\<lparr>promises :=
        (if ToPropertyKey key \<in> fst ` set (promises s) then promises s
         else promises s @ [(ToPropertyKey key, Val Null)]),
      suspended := suspended s @ [key]\<rparr>"
proof (cases "map_of (promises s) (ToPropertyKey key)")
  case None
  then have "ToPropertyKey key \<notin> fst ` set (promises s)"
    by (simp add: map_of_eq_None_iff)
  with None assms show ?thesis
    by (simp add: load_def get_prop_def update_absent)
next
  case (Some r)
  then have "(ToPropertyKey key, r) \<in> set (promises s)"
    by (rule map_of_SomeD)
  with assms(1) have r: "r = Val Null" by auto
  moreover have "ToPropertyKey key \<in> fst ` set (promises s)"
    using \<open>(ToPropertyKey key, r) \<in> set (promises s)\<close> by force
  moreover have "AList.update (ToPropertyKey key) (Val Null) (promises s) = promises s"
    using Some r by (simp add: AList.update_triv)
  ultimately show ?thesis
    using Some by (simp add: load_def get_prop_def)
qed

lemma exec_loads:
  assumes "\<forall>(nm, r) \<in> set (promises s). r = Val Null"
    "\<forall>k \<in> set ks. \<not> inherited (ToPropertyKey k)"
  shows "exec s (map Load ks) =
    s\<lparr>promises :=
        promises s @
        map (\<lambda>nm. (nm, Val Null))
          (filter (\<lambda>nm. nm \<notin> fst ` set (promises s)) (distinct_keys (map ToPropertyKey ks))),
      suspended := suspended s @ ks\<rparr>"
  using assms
proof (induction ks arbitrary: s)
  case Nil
  then show ?case by (simp add: exec_Nil)
next
  case (Cons k ks)
  let ?nm = "ToPropertyKey k"
  let ?s' = "load s k"
  let ?names = "distinct_keys (map ToPropertyKey ks)"
  have l: "?s' =
    s\<lparr>promises :=
        (if ?nm \<in> fst ` set (promises s) then promises s else promises s @ [(?nm, Val Null)]),
      suspended := suspended s @ [k]\<rparr>"
    using Cons.prems by (intro load_placeholder) auto
  have p: "\<forall>(nm, r) \<in> set (promises ?s'). r = Val Null"
    using Cons.prems(1) by (auto simp: l)
  have i: "\<forall>k \<in> set ks. \<not> inherited (ToPropertyKey k)"
    using Cons.prems(2) by simp
  have e: "exec s (map Load (k # ks)) =
    ?s'\<lparr>promises :=
         promises ?s' @
         map (\<lambda>nm. (nm, Val Null))
           (filter (\<lambda>nm. nm \<notin> fst ` set (promises ?s')) ?names),
       suspended := suspended ?s' @ ks\<rparr>"
    using Cons.IH[OF p i] by (simp add: exec_Cons)
  show ?case
  proof (cases "?nm \<in> fst ` set (promises s)")
    case True
    then have "filter (\<lambda>x. x \<noteq> ?nm \<and> x \<notin> fst ` set (promises s)) ?names =
               filter (\<lambda>x. x \<notin> fst ` set (promises s)) ?names"
      by (intro filter_cong) auto
    with True show ?thesis
      unfolding e by (simp add: l)
  next
    case False
    have "filter (\<lambda>x. x \<noteq> ?nm \<and> x \<notin> fst ` set (promises s)) ?names =
          filter (\<lambda>x. x \<notin> fst ` set (promises s) \<and> x \<noteq> ?nm) ?names"
      by (intro filter_cong) auto
    with False show ?thesis
      unfolding e by (simp add: l)
  qed
qed

lemma set_distinct_keys: "set (distinct_keys ks) = set ks"
  by (induction ks) auto

lemma own_property_keys_no_index:
  "\<forall>k \<in> set ks. \<not> is_array_index k \<Longrightarrow> own_property_keys ks = ks"
  by (simp add: own_property_keys_def filter_empty_conv filter_id_conv)

lemma window_fetches:
  assumes "returns_promise f" "\<forall>k \<in> set ks. \<not> inherited (ToPropertyKey k)" "i < length ks"
  shows "fetches (exec (DataLoader (Callable f)) (map Load ks @ Resume i # evs)) =
           [own_property_keys (distinct_keys (map ToPropertyKey ks))]"
proof -
  let ?s0 = "DataLoader (Callable f)"
  let ?s1 = "exec ?s0 (map Load ks)"
  let ?names = "distinct_keys (map ToPropertyKey ks)"
  have s1: "?s1 = ?s0\<lparr>promises := map (\<lambda>nm. (nm, Val Null)) ?names, suspended := ks\<rparr>"
    using exec_loads[of ?s0 ks] assms(2) by (simp add: DataLoader_def)
  have b1: "batchFn ?s1 = Some (Callable f)" and a1: "activeQuery ?s1 = Val Null"
    and p1: "promises ?s1 = map (\<lambda>nm. (nm, Val Null)) ?names"
    and u1: "suspended ?s1 = ks" and f1: "fetches ?s1 = []"
    unfolding s1 by (simp_all add: DataLoader_def)
  let ?s1' = "?s1\<lparr>suspended := take i ks @ drop (Suc i) ks\<rparr>"
  have k: "Object_keys (promises ?s1) = own_property_keys ?names"
    by (simp add: p1 Object_keys_def comp_def)
  obtain p where p: "f (own_property_keys ?names) = Inr (Promise p)"
    using assms(1) by (auto simp: returns_promise_def)
  have d: "dispatch ?s1' =
    (?s1'\<lparr>activeQuery := Promise p,
           fetches := fetches ?s1' @ [Object_keys (promises ?s1')]\<rparr>, None)"
    using p by (intro dispatch_fresh[of _ f]) (simp_all add: b1 a1 k)
  let ?s2 = "step ?s1 (Resume i)"
  have s2: "?s2 = load_resumed ?s1' (ks ! i)"
    using assms(3) by (simp add: u1)
  have "activeQuery ?s2 = Promise p \<and> fetches ?s2 = [own_property_keys ?names]"
    unfolding s2 load_resumed_def d
    by (simp add: activeQuery_then_def k f1)
  then have "fetches (exec ?s2 evs) = [own_property_keys ?names]"
    using exec_dispatched[of ?s2 p evs] by simp
  then show ?thesis
    by (simp add: exec_append exec_Cons)
qed

text \<open>
  C3, as the code has it. In one scheduling window (a fresh loader whose batch function
  returns a promise, requests for keys that are not names of \<^verbatim>\<open>Object.prototype\<close>, then
  the first resumed call, whatever follows) the batch function is invoked exactly once.
  It receives the distinct keys in the order of \<^verbatim>\<open>Object.keys\<close>: the array indices in
  ascending numeric order, then the other keys in order of first request; when no key
  is an array index, that is the order of first request.
\<close>

theorem C3_one_fetch_in_property_order:
  assumes "returns_promise f" "\<forall>k \<in> set ks. \<not> inherited (ToPropertyKey k)" "i < length ks"
  shows "fetches (exec (DataLoader (Callable f)) (map Load ks @ Resume i # evs)) =
           [own_property_keys (distinct_keys (map ToPropertyKey ks))] \<and>
         ((\<forall>k \<in> set ks. \<not> is_array_index (ToPropertyKey k)) \<longrightarrow>
            fetches (exec (DataLoader (Callable f)) (map Load ks @ Resume i # evs)) =
              [distinct_keys (map ToPropertyKey ks)])"
  using window_fetches[OF assms, of evs]
  by (simp add: own_property_keys_no_index set_distinct_keys)

theorem C3_witness:
  "returns_promise (whereIn users) \<and>
   list_all (\<lambda>k. \<not> inherited (ToPropertyKey k)) author_ids \<and>
   0 < length author_ids \<and>
   map ToPropertyKey author_ids =
     [''1'', ''1'', ''2'', ''2'', ''4'', ''4'', ''5'', ''6'', ''10'', ''18''] \<and>
   fetches (exec (DataLoader (Callable (whereIn users)))
     (map Load author_ids @ Resume 0 # replicate 9 (Resume 0))) =
     [[''1'', ''2'', ''4'', ''5'', ''6'', ''10'', ''18'']]"
proof -
  have n: "map ToPropertyKey author_ids =
     [''1'', ''1'', ''2'', ''2'', ''4'', ''4'', ''5'', ''6'', ''10'', ''18'']"
    by (simp add: author_ids_def id_key_def)
  have h: "\<forall>k \<in> set author_ids. \<not> inherited (ToPropertyKey k)"
    by (simp add: author_ids_def id_key_def inherited_def Object_prototype_names_def)
  have l: "0 < length author_ids"
    by (simp add: author_ids_def)
  have o: "own_property_keys (distinct_keys (map ToPropertyKey author_ids)) =
    [''1'', ''2'', ''4'', ''5'', ''6'', ''10'', ''18'']"
    unfolding n
    by (simp add: own_property_keys_def is_array_index_def index_of_def digits_def
        digit_table_def)
  from C3_one_fetch_in_property_order[OF returns_promise_whereIn h l,
      of users "replicate 9 (Resume 0)"] o h n l returns_promise_whereIn[of users]
  show ?thesis by (simp add: list_all_iff)
qed

text \<open>
  C3 as stated fails on the order: the keys 2 and 1, requested in this order, reach
  the batch function as 1, 2.
\<close>

theorem C3_counterexample:
  "fetches (exec (DataLoader (Callable (whereIn users)))
     [Load (id_key 2 ''2''), Load (id_key 1 ''1''), Resume 0, Resume 0]) = [[''1'', ''2'']] \<and>
   distinct_keys (map ToPropertyKey [id_key 2 ''2'', id_key 1 ''1'']) = [''2'', ''1''] \<and>
   fetches (exec (DataLoader (Callable (whereIn users)))
     [Load (id_key 2 ''2''), Load (id_key 1 ''1''), Resume 0, Resume 0]) \<noteq>
     [distinct_keys (map ToPropertyKey [id_key 2 ''2'', id_key 1 ''1''])]"
  by (simp add: loader_eval users_eval)




text \<open>
  C5, as the code has it. \<^verbatim>\<open>load(key)\<close> tests the entry for truthiness. An entry that
  holds a promise (stored when a call for the key was resumed) is returned as it is:
  nothing is registered and nothing is scheduled. An entry that is still the
  placeholder \<^verbatim>\<open>null\<close> is not returned: the call registers the placeholder again, which
  changes nothing, and goes on to the scheduler.
\<close>

theorem C5_cached_promise_is_returned:
  "(map_of (promises s) (ToPropertyKey key) = Some (Promise p) \<longrightarrow>
      load s key = s\<lparr>settled := settled s @ [(key, p)]\<rparr>) \<and>
   (map_of (promises s) (ToPropertyKey key) = Some (Val Null) \<longrightarrow>
      load s key = s\<lparr>suspended := suspended s @ [key]\<rparr>)"
  by (simp add: load_def get_prop_def resolve_def AList.update_triv)

theorem C5_witness:
  "map_of (promises (exec (DataLoader (Callable (whereIn users)))
       [Load (id_key 1 ''1''), Resume 0])) (ToPropertyKey (id_key 1 ''1'')) =
     Some (Promise (Fulfilled (user 1))) \<and>
   load (exec (DataLoader (Callable (whereIn users))) [Load (id_key 1 ''1''), Resume 0])
       (id_key 1 ''1'') =
     (exec (DataLoader (Callable (whereIn users))) [Load (id_key 1 ''1''), Resume 0])
       \<lparr>settled :=
          settled (exec (DataLoader (Callable (whereIn users)))
            [Load (id_key 1 ''1''), Resume 0]) @
          [(id_key 1 ''1'', Fulfilled (user 1))]\<rparr> \<and>
   map_of (promises (exec (DataLoader (Callable (whereIn users))) [Load (id_key 1 ''1'')]))
       (ToPropertyKey (id_key 1 ''1'')) =
     Some (Val Null) \<and>
   load (exec (DataLoader (Callable (whereIn users))) [Load (id_key 1 ''1'')])
       (id_key 1 ''1'') =
     (exec (DataLoader (Callable (whereIn users))) [Load (id_key 1 ''1'')])
       \<lparr>suspended :=
          suspended (exec (DataLoader (Callable (whereIn users))) [Load (id_key 1 ''1'')]) @
          [id_key 1 ''1'']\<rparr>"
proof -
  let ?k = "id_key 1 ''1''"
  let ?s = "exec (DataLoader (Callable (whereIn users))) [Load ?k, Resume 0]"
  let ?t = "exec (DataLoader (Callable (whereIn users))) [Load ?k]"
  have a: "map_of (promises ?s) (ToPropertyKey ?k) = Some (Promise (Fulfilled (user 1)))"
    by (simp add: loader_eval users_eval)
  have b: "map_of (promises ?t) (ToPropertyKey ?k) = Some (Val Null)"
    by (simp add: loader_eval users_eval)
  from C5_cached_promise_is_returned[of ?s ?k "Fulfilled (user 1)"] a
  have c: "load ?s ?k = ?s\<lparr>settled := settled ?s @ [(?k, Fulfilled (user 1))]\<rparr>"
    by blast
  from C5_cached_promise_is_returned[of ?t ?k p] b
  have d: "load ?t ?k = ?t\<lparr>suspended := suspended ?t @ [?k]\<rparr>"
    by blast
  from a b c d show ?thesis by blast
qed

text \<open>
  C5 as stated fails while the entry is the placeholder: a second request of a key in
  the same tick is not answered from the cache, it is suspended at the scheduler too.
\<close>

theorem C5_counterexample:
  "map_of (promises (exec (DataLoader (Callable (whereIn users))) [Load (id_key 1 ''1'')]))
     ''1'' = Some (Val Null) \<and>
   suspended (exec (DataLoader (Callable (whereIn users)))
     [Load (id_key 1 ''1''), Load (id_key 1 ''1'')]) = [id_key 1 ''1'', id_key 1 ''1''] \<and>
   settled (exec (DataLoader (Callable (whereIn users)))
     [Load (id_key 1 ''1''), Load (id_key 1 ''1'')]) = []"
  by (simp add: loader_eval users_eval)




text \<open>
  C7, as the code has it. When the promise of the batch is fulfilled with an array
  without \<^verbatim>\<open>null\<close> or \<^verbatim>\<open>undefined\<close> elements, a resumed call \<^verbatim>\<open>load(key)\<close> is
  fulfilled with the first item whose \<^verbatim>\<open>id\<close> is the number \<^verbatim>\<open>Number(key)\<close>, or with
  \<^verbatim>\<open>undefined\<close> when there is none; the promise of that item is stored under the name
  of the key, and a later \<^verbatim>\<open>load(key)\<close> is answered with it directly.
\<close>

theorem C7_item_selected_by_Number_and_stored:
  assumes "dispatch s = (s1, None)"
    and "activeQuery s1 = Promise (Fulfilled (Arr items))"
    and "\<forall>item \<in> set items. \<not> hole item"
  shows "settled (load_resumed s key) = settled s1 @ [(key, Fulfilled (item_of key items))] \<and>
         get_prop (promises (load_resumed s key)) (ToPropertyKey key) =
           Promise (Fulfilled (item_of key items)) \<and>
         load (load_resumed s key) key =
           (load_resumed s key)
             \<lparr>settled := settled (load_resumed s key) @ [(key, Fulfilled (item_of key items))]\<rparr> \<and>
         (\<forall>item. find (has_id (Number key)) items = Some item \<longrightarrow>
            item_of key items = item \<and> get_id item = Inr (Num (Number key)))"
proof -
  have r: "load_resumed s key =
    s1\<lparr>promises :=
         AList.update (ToPropertyKey key) (Promise (Fulfilled (item_of key items))) (promises s1),
       settled := settled s1 @ [(key, Fulfilled (item_of key items))]\<rparr>"
    using assms(1,2) then_select_item_of[OF assms(3), of key]
    by (simp add: load_resumed_def activeQuery_then_def)
  have g: "get_prop (promises (load_resumed s key)) (ToPropertyKey key) =
    Promise (Fulfilled (item_of key items))"
    by (simp add: r get_prop_def AList.update_conv')
  have l: "load (load_resumed s key) key =
    (load_resumed s key)
      \<lparr>settled := settled (load_resumed s key) @ [(key, Fulfilled (item_of key items))]\<rparr>"
    by (simp add: load_def g resolve_def)
  have "item_of key items = item \<and> get_id item = Inr (Num (Number key))"
    if "find (has_id (Number key)) items = Some item" for item
  proof -
    from that have "has_id (Number key) item"
      by (auto simp: find_Some_iff)
    with that show ?thesis
      by (simp add: item_of_def has_id_Num)
  qed
  with g l show ?thesis
    by (simp add: r)
qed

theorem C7_witness:
  "dispatch (exec (DataLoader (Callable (whereIn users)))
       [Load (id_key 1 ''1''), Load (id_key 2 ''2'')]) =
     ((exec (DataLoader (Callable (whereIn users)))
         [Load (id_key 1 ''1''), Load (id_key 2 ''2'')])
        \<lparr>activeQuery := Promise (Fulfilled (Arr [user 1, user 2])),
         fetches := [[''1'', ''2'']]\<rparr>, None) \<and>
   list_all (\<lambda>item. \<not> hole item) [user 1, user 2] \<and>
   item_of (id_key 1 ''1'') [user 1, user 2] = user 1 \<and>
   settled (load_resumed
     (exec (DataLoader (Callable (whereIn users)))
        [Load (id_key 1 ''1''), Load (id_key 2 ''2'')]) (id_key 1 ''1'')) =
     [(id_key 1 ''1'', Fulfilled (user 1))] \<and>
   get_prop (promises (load_resumed
     (exec (DataLoader (Callable (whereIn users)))
        [Load (id_key 1 ''1''), Load (id_key 2 ''2'')]) (id_key 1 ''1'')))
     (ToPropertyKey (id_key 1 ''1'')) = Promise (Fulfilled (user 1)) \<and>
   get_id (user 1) = Inr (Num (Number (id_key 1 ''1'')))"
proof -
  let ?k = "id_key 1 ''1''"
  let ?s = "exec (DataLoader (Callable (whereIn users))) [Load ?k, Load (id_key 2 ''2'')]"
  let ?s1 = "?s\<lparr>activeQuery := Promise (Fulfilled (Arr [user 1, user 2])),
                fetches := [[''1'', ''2'']]\<rparr>"
  have a: "dispatch ?s = (?s1, None)"
    by (simp add: loader_eval users_eval)
  have b: "activeQuery ?s1 = Promise (Fulfilled (Arr [user 1, user 2]))"
    by simp
  have c: "\<forall>item \<in> set [user 1, user 2]. \<not> hole item"
    by (simp add: user_def hole_def)
  have d: "item_of ?k [user 1, user 2] = user 1"
    "find (has_id (Number ?k)) [user 1, user 2] = Some (user 1)"
    by (simp_all add: loader_eval users_eval)
  have e: "settled ?s1 = []"
    by (simp add: loader_eval users_eval)
  from C7_item_selected_by_Number_and_stored[OF a b c, of ?k] d e
  have "settled (load_resumed ?s ?k) = [(?k, Fulfilled (user 1))]"
    and "get_prop (promises (load_resumed ?s ?k)) (ToPropertyKey ?k) =
      Promise (Fulfilled (user 1))"
    and "get_id (user 1) = Inr (Num (Number ?k))"
    by simp_all
  with a c d(1) show ?thesis
    by (simp add: list_all_iff)
qed

text \<open>
  C7 as stated fails: the selection is not by equality with the key. For the key
  \<^verbatim>\<open>'abc'\<close> and a result that holds the item whose \<^verbatim>\<open>id\<close> is \<^verbatim>\<open>'abc'\<close>, the call is
  fulfilled with \<^verbatim>\<open>undefined\<close>, not with that item. And on the result
  \<^verbatim>\<open>[null, {id: 1}]\<close> the call for the key 1 is rejected, though its item is there.
\<close>

theorem C7_counterexample:
  "get_id (Obj [(''id'', Str ''abc'')]) = Inr (Str ''abc'') \<and>
   fetches (exec (DataLoader (Callable (resolving [Obj [(''id'', Str ''abc'')]])))
     [Load key_abc, Resume 0]) = [[''abc'']] \<and>
   settled (exec (DataLoader (Callable (resolving [Obj [(''id'', Str ''abc'')]])))
     [Load key_abc, Resume 0]) = [(key_abc, Fulfilled Undefined)] \<and>
   settled (exec (DataLoader (Callable (resolving [Obj [(''id'', Str ''abc'')]])))
     [Load key_abc, Resume 0]) \<noteq> [(key_abc, Fulfilled (Obj [(''id'', Str ''abc'')]))] \<and>
   settled (exec (DataLoader (Callable (resolving [Null, user 1])))
     [Load (id_key 1 ''1''), Resume 0]) = [(id_key 1 ''1'', Rejected TypeError)]"
  by (simp add: loader_eval users_eval)

text \<open>
  C8 fails on the code. A loader built without a batch function has
  \<^verbatim>\<open>this.batchFn = undefined\<close> as an own property, which shadows the method of the
  prototype that throws \<^verbatim>\<open>'Not implemented'\<close>. The first call resumed is rejected, with
  the \<^verbatim>\<open>TypeError\<close> of calling \<^verbatim>\<open>undefined\<close>; the default method is never invoked.
\<close>

theorem C8_default_batchFn_is_shadowed:
  "get_batchFn (DataLoader (NotCallable Undefined)) = NotCallable Undefined \<and>
   get_batchFn (DataLoader (NotCallable Undefined)) \<noteq> Callable prototype_batchFn \<and>
   prototype_batchFn [''1''] = Inl (Error ''Not implemented'') \<and>
   settled (exec (DataLoader (NotCallable Undefined)) [Load (id_key 1 ''1''), Resume 0]) =
     [(id_key 1 ''1'', Rejected TypeError)] \<and>
   settled (exec (DataLoader (NotCallable Undefined)) [Load (id_key 1 ''1''), Resume 0]) \<noteq>
     [(id_key 1 ''1'', Rejected (Error ''Not implemented''))] \<and>
   fetches (exec (DataLoader (NotCallable Undefined)) [Load (id_key 1 ''1''), Resume 0]) = []"
  by (simp add: loader_eval users_eval prototype_batchFn_def)

text \<open>
  C9, as the code has it. A call \<^verbatim>\<open>load(key)\<close> whose entry is not truthy registers the
  key under its property name, the string \<^verbatim>\<open>String(key)\<close>. A dispatch passes
  \<^verbatim>\<open>Object.keys(this.promises)\<close> to the batch function: the names registered, all of
  them. A resumed call, the one that dispatches or a later one, selects by
  \<^verbatim>\<open>item.id === Number(key)\<close>, with \<^verbatim>\<open>Number\<close> of the argument of \<^verbatim>\<open>load\<close>: when the
  promise of the batch is fulfilled with an array without \<^verbatim>\<open>null\<close> or \<^verbatim>\<open>undefined\<close>
  elements, and \<^verbatim>\<open>Number(key)\<close> is \<open>NaN\<close> or no item has the number \<^verbatim>\<open>Number(key)\<close> as
  its \<^verbatim>\<open>id\<close>, the call is fulfilled with \<^verbatim>\<open>undefined\<close>.
\<close>

theorem C9_string_names_compared_as_numbers:
  "(\<not> truthy (get_prop (promises s) (ToPropertyKey key)) \<longrightarrow>
      promises (load s key) = AList.update (ToPropertyKey key) (Val Null) (promises s) \<and>
      ToPropertyKey key \<in> fst ` set (promises (load s key)) \<and>
      suspended (load s key) = suspended s @ [key]) \<and>
   (batchFn s = Some (Callable f) \<and> \<not> truthy (activeQuery s) \<longrightarrow>
      fetches (fst (dispatch s)) = fetches s @ [Object_keys (promises s)] \<and>
      set (Object_keys (promises s)) = fst ` set (promises s)) \<and>
   (dispatch s = (s1, None) \<and> activeQuery s1 = Promise (Fulfilled (Arr items)) \<and>
    (\<forall>item \<in> set items. \<not> hole item) \<longrightarrow>
      settled (load_resumed s key) = settled s1 @ [(key, Fulfilled (item_of key items))] \<and>
      (Number key = NaN \<or> (\<forall>item \<in> set items. get_id item \<noteq> Inr (Num (Number key)))
       \<longrightarrow> settled (load_resumed s key) = settled s1 @ [(key, Fulfilled Undefined)]))"
proof (intro conjI impI)
  assume t: "\<not> truthy (get_prop (promises s) (ToPropertyKey key))"
  show "promises (load s key) = AList.update (ToPropertyKey key) (Val Null) (promises s)"
    and "suspended (load s key) = suspended s @ [key]"
    by (simp_all add: load_suspends[OF t])
  show "ToPropertyKey key \<in> fst ` set (promises (load s key))"
    by (simp add: load_suspends[OF t] AList.dom_update)
next
  assume a: "batchFn s = Some (Callable f) \<and> \<not> truthy (activeQuery s)"
  show "fetches (fst (dispatch s)) = fetches s @ [Object_keys (promises s)]"
  proof (cases "f (Object_keys (promises s))")
    case (Inl e)
    with a show ?thesis by (simp add: dispatch_throws)
  next
    case (Inr r)
    with a show ?thesis by (simp add: dispatch_fresh)
  qed
  show "set (Object_keys (promises s)) = fst ` set (promises s)"
    by (rule set_Object_keys)
next
  assume a: "dispatch s = (s1, None) \<and> activeQuery s1 = Promise (Fulfilled (Arr items)) \<and>
    (\<forall>item \<in> set items. \<not> hole item)"
  then have h: "\<forall>item \<in> set items. \<not> hole item" by simp
  show r: "settled (load_resumed s key) = settled s1 @ [(key, Fulfilled (item_of key items))]"
    using a then_select_item_of[OF h, of key]
    by (simp add: load_resumed_def activeQuery_then_def)
  assume "Number key = NaN \<or> (\<forall>item \<in> set items. get_id item \<noteq> Inr (Num (Number key)))"
  then have "\<forall>item \<in> set items. \<not> has_id (Number key) item"
    using has_id_Num by blast
  then have "item_of key items = Undefined"
    by (rule item_of_missing)
  with r show "settled (load_resumed s key) = settled s1 @ [(key, Fulfilled Undefined)]"
    by simp
qed

theorem C9_witness:
  "\<not> truthy (get_prop (promises (DataLoader (Callable (resolving [user 1])))) (ToPropertyKey key_abc)) \<and>
   promises (load (DataLoader (Callable (resolving [user 1]))) key_abc) = [(''abc'', Val Null)] \<and>
   batchFn (exec (DataLoader (Callable (resolving [user 1]))) [Load key_abc, Load (id_key 1 ''1'')]) =
     Some (Callable (resolving [user 1])) \<and>
   \<not> truthy (activeQuery
     (exec (DataLoader (Callable (resolving [user 1]))) [Load key_abc, Load (id_key 1 ''1'')])) \<and>
   fetches (fst (dispatch
     (exec (DataLoader (Callable (resolving [user 1]))) [Load key_abc, Load (id_key 1 ''1'')]))) =
     [[''1'', ''abc'']] \<and>
   dispatch (exec (DataLoader (Callable (resolving [user 1]))) [Load key_abc, Load (id_key 1 ''1'')]) =
     ((exec (DataLoader (Callable (resolving [user 1]))) [Load key_abc, Load (id_key 1 ''1'')])
        \<lparr>activeQuery := Promise (Fulfilled (Arr [user 1])), fetches := [[''1'', ''abc'']]\<rparr>,
      None) \<and>
   list_all (\<lambda>item. \<not> hole item) [user 1] \<and>
   Number key_abc = NaN \<and>
   settled (load_resumed
     (exec (DataLoader (Callable (resolving [user 1]))) [Load key_abc, Load (id_key 1 ''1'')])
     key_abc) = [(key_abc, Fulfilled Undefined)]"
proof -
  let ?f = "resolving [user 1]"
  let ?l = "DataLoader (Callable ?f)"
  let ?s = "exec ?l [Load key_abc, Load (id_key 1 ''1'')]"
  let ?s1 = "?s\<lparr>activeQuery := Promise (Fulfilled (Arr [user 1])),
                fetches := [[''1'', ''abc'']]\<rparr>"
  have a: "\<not> truthy (get_prop (promises ?l) (ToPropertyKey key_abc))"
    by (simp add: loader_eval users_eval)
  have b: "batchFn ?s = Some (Callable ?f) \<and> \<not> truthy (activeQuery ?s)"
    by (simp add: loader_eval users_eval)
  have c: "dispatch ?s = (?s1, None)"
    by (simp add: loader_eval users_eval)
  have d: "activeQuery ?s1 = Promise (Fulfilled (Arr [user 1]))"
    by simp
  have h: "\<forall>item \<in> set [user 1]. \<not> hole item"
    by (simp add: user_def hole_def)
  have n: "Number key_abc = NaN"
    by (simp add: key_abc_def)
  have e1: "fetches ?s = []"
    by (simp add: loader_eval users_eval)
  have e2: "settled ?s1 = []"
    by (simp add: loader_eval users_eval)
  have e3: "Object_keys (promises ?s) = [''1'', ''abc'']"
    by (simp add: loader_eval users_eval)
  have e4: "AList.update (ToPropertyKey key_abc) (Val Null) (promises ?l) = [(''abc'', Val Null)]"
    by (simp add: loader_eval users_eval)
  note e = e1 e2 e3 e4
  note t1 = C9_string_names_compared_as_numbers[of ?l key_abc ?f ?s1 "[user 1]"]
  note t2 = C9_string_names_compared_as_numbers[of ?s key_abc ?f ?s1 "[user 1]"]
  from t1 a have "promises (load ?l key_abc) =
      AList.update (ToPropertyKey key_abc) (Val Null) (promises ?l)"
    by blast
  then have x: "promises (load ?l key_abc) = [(''abc'', Val Null)]"
    by (simp only: e)
  from t2 b have "fetches (fst (dispatch ?s)) = fetches ?s @ [Object_keys (promises ?s)]"
    by blast
  then have y: "fetches (fst (dispatch ?s)) = [[''1'', ''abc'']]"
    by (simp only: e append_Nil)
  from t2 c d h n have "settled (load_resumed ?s key_abc) =
      settled ?s1 @ [(key_abc, Fulfilled Undefined)]"
    by blast
  then have z: "settled (load_resumed ?s key_abc) = [(key_abc, Fulfilled Undefined)]"
    by (simp only: e append_Nil)
  from a b c h n x y z show ?thesis
    by (simp add: list_all_iff)
qed

text \<open>
  C9 as stated fails. The key \<^verbatim>\<open>'toString'\<close> is no numeric string, yet \<^verbatim>\<open>load\<close> does not
  store it and does not resolve to \<^verbatim>\<open>undefined\<close>: it answers with the member of
  \<^verbatim>\<open>Object.prototype\<close>. And for the key \<^verbatim>\<open>'abc'\<close> on the result \<^verbatim>\<open>[null]\<close> the call is
  rejected, not fulfilled with \<^verbatim>\<open>undefined\<close>.
\<close>

theorem C9_counterexample:
  "Number key_toString = NaN \<and>
   promises (exec (DataLoader (Callable (whereIn users))) [Load key_toString]) = [] \<and>
   settled (exec (DataLoader (Callable (whereIn users))) [Load key_toString]) =
     [(key_toString, Fulfilled (Builtin ''toString''))] \<and>
   Number key_abc = NaN \<and>
   settled (exec (DataLoader (Callable (resolving [Null]))) [Load key_abc, Resume 0]) =
     [(key_abc, Rejected TypeError)]"
  by (simp add: loader_eval users_eval)

text \<open>The spread properties come after \<^verbatim>\<open>className\<close> and leave it alone unless they name it.\<close>

lemma map_of_spread:
  "map_of props k = None \<Longrightarrow> map_of (spread base props) k = map_of base k"
  unfolding spread_def
proof (induction props arbitrary: base)
  case Nil
  then show ?case by simp
next
  case (Cons p props)
  obtain k' v where p: "p = (k', v)" by (cases p)
  with Cons.prems have "k' \<noteq> k" and "map_of props k = None"
    by (auto split: if_splits)
  with Cons.IH[of "AList.update k' v base"] p show ?case
    by (simp add: AList.update_conv')
qed

text \<open>
  C10. The component registered for \<^verbatim>\<open>del\<close> renders an \<^verbatim>\<open>ins\<close> element, whatever the
  properties, never a \<^verbatim>\<open>del\<close> element; its class is the blue one of the mapping unless
  the properties bring a \<^verbatim>\<open>className\<close> of their own.
\<close>

theorem C10_del_renders_ins:
  "map_option tag (render ''del'' props) = Some ''ins'' \<and>
   map_option tag (render ''del'' props) \<noteq> Some ''del'' \<and>
   (map_of props ''className'' = None \<longrightarrow>
      map_option (\<lambda>e. map_of (attrs e) ''className'') (render ''del'' props) =
        Some (Some (Str ''block px-4 -mx-4 bg-blue-800'')))"
  by (simp add: render_def components_def intrinsic_def map_of_spread)

theorem C10_witness:
  "map_of [(''children'', Str ''removed'')] ''className'' = None \<and>
   render ''del'' [(''children'', Str ''removed'')] =
     Some \<lparr>tag = ''ins'',
           attrs = [(''className'', Str ''block px-4 -mx-4 bg-blue-800''),
                    (''children'', Str ''removed'')]\<rparr> \<and>
   map_option tag (render ''del'' [(''children'', Str ''removed'')]) = Some ''ins'' \<and>
   map_option (\<lambda>e. map_of (attrs e) ''className'')
     (render ''del'' [(''children'', Str ''removed'')]) =
     Some (Some (Str ''block px-4 -mx-4 bg-blue-800''))"
proof -
  have a: "map_of [(''children'', Str ''removed'')] ''className'' = None"
    by simp
  have b: "render ''del'' [(''children'', Str ''removed'')] =
     Some \<lparr>tag = ''ins'',
           attrs = [(''className'', Str ''block px-4 -mx-4 bg-blue-800''),
                    (''children'', Str ''removed'')]\<rparr>"
    by (simp add: render_def components_def intrinsic_def spread_def)
  from C10_del_renders_ins[of "[(''children'', Str ''removed'')]"] a b
  show ?thesis by blast
qed

end
